theory Spec2Isabelle
  imports Main
begin

section \<open>Data model (types.ts)\<close>

text \<open>
  The string-literal unions of \<^verbatim>\<open>types.ts\<close> are closed enumerations, so each is a
  datatype with one constructor per literal:
  \<^verbatim>\<open>Move = 'rock' | 'paper' | 'scissors'\<close>,
  \<^verbatim>\<open>GameMode = 'human-vs-computer' | 'computer-vs-computer'\<close>, and the type of a
  round's winner, \<^verbatim>\<open>Player | 'tie'\<close> with \<^verbatim>\<open>Player = 'player1' | 'player2'\<close>.
\<close>

datatype Move = Rock | Paper | Scissors

datatype GameMode = HumanVsComputer | ComputerVsComputer

datatype Winner = Player1 | Player2 | Tie

text \<open>\<^verbatim>\<open>interface GameResult { winner; player1Move; player2Move }\<close>\<close>

record GameResult =
  winner :: Winner
  player1Move :: Move
  player2Move :: Move

text \<open>
  \<^verbatim>\<open>interface GameState\<close>. Its nested \<^verbatim>\<open>scores\<close> object is a record of its own, the
  optional field \<^verbatim>\<open>lastResult?\<close> is an \<open>option\<close> (\<open>None\<close> for \<^verbatim>\<open>undefined\<close>).
  The counters are JavaScript numbers that start at 0 and are only ever replaced by 0 or
  by their successor, so they are natural numbers here (a double counts exactly up to
  \<open>2^53\<close>, which no session of clicks and one-second timers reaches).
\<close>

record Scores =
  player1 :: nat
  player2 :: nat
  ties :: nat

record GameState =
  mode :: GameMode
  currentRound :: nat
  scores :: Scores
  lastResult :: "GameResult option"
  isPlaying :: bool

section \<open>Game logic (gameLogic.ts)\<close>

text \<open>
  The local table of \<^verbatim>\<open>determineWinner\<close>:
  \<^verbatim>\<open>winConditions: Record<Move, Move[]> = { rock: ['scissors'], paper: ['rock'], scissors: ['paper'] }\<close>
\<close>

fun winConditions :: "Move \<Rightarrow> Move list" where
  "winConditions Rock = [Scissors]"
| "winConditions Paper = [Rock]"
| "winConditions Scissors = [Paper]"

text \<open>
  \<^verbatim>\<open>
  if (player1Move === player2Move) return 'tie';
  return winConditions[player1Move].includes(player2Move) ? 'player1' : 'player2';
  \<close>
\<close>

definition determineWinner :: "Move \<Rightarrow> Move \<Rightarrow> Winner" where
  "determineWinner p1Move p2Move =
     (if p1Move = p2Move then Tie
      else if p2Move \<in> set (winConditions p1Move) then Player1 else Player2)"

text \<open>\<^verbatim>\<open>playRound\<close> packs the winner together with both moves.\<close>

definition playRound :: "Move \<Rightarrow> Move \<Rightarrow> GameResult" where
  "playRound p1Move p2Move =
     (let w = determineWinner p1Move p2Move
      in \<lparr>winner = w, player1Move = p1Move, player2Move = p2Move\<rparr>)"

section \<open>The win table as the specification words it\<close>

text \<open>
  The reference relation, written from the specification's sentence and not from the
  code: rock beats scissors, scissors beats paper, paper beats rock, and nothing else
  beats anything.
\<close>

fun spec_beats :: "Move \<Rightarrow> Move \<Rightarrow> bool" where
  "spec_beats Rock Scissors = True"
| "spec_beats Scissors Paper = True"
| "spec_beats Paper Rock = True"
| "spec_beats _ _ = False"

text \<open>
  The specification's resolver: identical moves tie; otherwise the first side wins when
  its move beats the other, and the second side wins when it does not.
\<close>

definition spec_resolve :: "Move \<Rightarrow> Move \<Rightarrow> Winner" where
  "spec_resolve moveA moveB =
     (if moveA = moveB then Tie
      else if spec_beats moveA moveB then Player1 else Player2)"

section \<open>The component's state and handlers (App.tsx)\<close>

text \<open>
  \<^verbatim>\<open>initialGameState\<close>: human-vs-computer, all counters 0, no last result, not playing.
\<close>

definition initialGameState :: GameState where
  "initialGameState =
     \<lparr>mode = HumanVsComputer, currentRound = 0,
      scores = \<lparr>player1 = 0, player2 = 0, ties = 0\<rparr>,
      lastResult = None, isPlaying = False\<rparr>"

text \<open>
  Every handler is a state transformer: its last argument \<open>prev\<close> is the component's
  state when the update is applied, its result the state afterwards.

  \<^verbatim>\<open>handleModeChange\<close> passes \<^verbatim>\<open>setGameState\<close> an object, \<^verbatim>\<open>{...initialGameState, mode}\<close>,
  so the new state does not depend on \<open>prev\<close>.
\<close>

definition handleModeChange :: "GameMode \<Rightarrow> GameState \<Rightarrow> GameState" where
  "handleModeChange newMode prev = initialGameState\<lparr>mode := newMode\<rparr>"

text \<open>
  \<^verbatim>\<open>handleHumanMove\<close> and \<^verbatim>\<open>handleComputerVsComputer\<close> read two states. The guard
  \<^verbatim>\<open>if (!gameState.isPlaying) return;\<close> reads \<open>gameState\<close>, the state of the render
  that created the callback (\<^verbatim>\<open>useCallback(..., [gameState.isPlaying])\<close>); the functional
  update \<^verbatim>\<open>setGameState(prev => ...)\<close> is applied to \<open>prev\<close>. When the guard returns,
  no update is made and the state stays \<open>prev\<close>. The moves that \<^verbatim>\<open>getRandomMove()\<close>
  samples are arguments of the model.
\<close>

definition handleHumanMove :: "GameState \<Rightarrow> Move \<Rightarrow> Move \<Rightarrow> GameState \<Rightarrow> GameState" where
  "handleHumanMove gameState move computerMove prev =
     (if \<not> isPlaying gameState then prev
      else
        let result = playRound move computerMove
        in prev\<lparr>currentRound := currentRound prev + 1,
                scores :=
                  \<lparr>player1 = player1 (scores prev) + (if winner result = Player1 then 1 else 0),
                   player2 = player2 (scores prev) + (if winner result = Player2 then 1 else 0),
                   ties = ties (scores prev) + (if winner result = Tie then 1 else 0)\<rparr>,
                lastResult := Some result,
                isPlaying := False\<rparr>)"

definition handleComputerVsComputer :: "GameState \<Rightarrow> Move \<Rightarrow> Move \<Rightarrow> GameState \<Rightarrow> GameState" where
  "handleComputerVsComputer gameState p1Move p2Move prev =
     (if \<not> isPlaying gameState then prev
      else
        let result = playRound p1Move p2Move
        in prev\<lparr>currentRound := currentRound prev + 1,
                scores :=
                  \<lparr>player1 = player1 (scores prev) + (if winner result = Player1 then 1 else 0),
                   player2 = player2 (scores prev) + (if winner result = Player2 then 1 else 0),
                   ties = ties (scores prev) + (if winner result = Tie then 1 else 0)\<rparr>,
                lastResult := Some result,
                isPlaying := False\<rparr>)"

text \<open>\<^verbatim>\<open>startNewRound\<close>: \<^verbatim>\<open>{...prev, isPlaying: true, lastResult: undefined}\<close>\<close>

definition startNewRound :: "GameState \<Rightarrow> GameState" where
  "startNewRound prev = prev\<lparr>isPlaying := True, lastResult := None\<rparr>"

text \<open>\<^verbatim>\<open>resetGame\<close>: \<^verbatim>\<open>{...initialGameState, mode: prev.mode}\<close>\<close>

definition resetGame :: "GameState \<Rightarrow> GameState" where
  "resetGame prev = initialGameState\<lparr>mode := mode prev\<rparr>"

subsection \<open>Reachable session states\<close>

text \<open>
  The states the component can be in: the initial one, and whatever a handler makes of
  a reachable state. The two guarded handlers may have been created by any render, so
  the state \<open>g\<close> their guard reads is arbitrary.
\<close>

inductive reachable :: "GameState \<Rightarrow> bool" where
  initial: "reachable initialGameState"
| modeChange: "reachable s \<Longrightarrow> reachable (handleModeChange m s)"
| humanMove: "reachable s \<Longrightarrow> reachable (handleHumanMove g move computerMove s)"
| computerVsComputer: "reachable s \<Longrightarrow> reachable (handleComputerVsComputer g p1Move p2Move s)"
| newRound: "reachable s \<Longrightarrow> reachable (startNewRound s)"
| reset: "reachable s \<Longrightarrow> reachable (resetGame s)"

subsection \<open>Predicates the properties are stated with\<close>

text \<open>
  What one completed round does to the three score counters: exactly one of them is one
  higher and the other two are as before.
\<close>

definition exactlyOneScored :: "Scores \<Rightarrow> Scores \<Rightarrow> bool" where
  "exactlyOneScored old new \<longleftrightarrow>
     (player1 new = player1 old + 1 \<and> player2 new = player2 old \<and> ties new = ties old)
   \<or> (player1 new = player1 old \<and> player2 new = player2 old + 1 \<and> ties new = ties old)
   \<or> (player1 new = player1 old \<and> player2 new = player2 old \<and> ties new = ties old + 1)"

text \<open>The sum of the three score counters.\<close>

definition scoreTotal :: "GameState \<Rightarrow> nat" where
  "scoreTotal s = player1 (scores s) + player2 (scores s) + ties (scores s)"

section \<open>The mounted component: state, effect and timer\<close>

text \<open>
  The component owns the session state and, through its effect, a browser timeout:
  \<^verbatim>\<open>
  useEffect(() => {
    if (gameState.mode === 'computer-vs-computer' && gameState.isPlaying) {
      const timer = setTimeout(handleComputerVsComputer, 1000);
      return () => clearTimeout(timer);
    }
  }, [gameState.isPlaying, gameState.mode, handleComputerVsComputer]);
  \<close>
  \<open>timeouts\<close> is the browser's table of scheduled timeouts: the handle that
  \<^verbatim>\<open>setTimeout\<close> returned, and the callback, which is \<^verbatim>\<open>handleComputerVsComputer\<close> as
  the render that ran the effect created it and is represented by the state that render
  closed over. \<open>cleanup\<close> is the cleanup function the last run of the effect
  returned (\<open>Some timer\<close> for \<^verbatim>\<open>() => clearTimeout(timer)\<close>, \<open>None\<close> when the effect
  returned nothing). \<open>nextTimer\<close> is the next unused handle.
\<close>

record App =
  gameState :: GameState
  timeouts :: "(nat \<times> GameState) list"
  cleanup :: "nat option"
  nextTimer :: nat

text \<open>\<^verbatim>\<open>clearTimeout(timer)\<close> removes the timeout with that handle, if it is still scheduled.\<close>

definition clearTimeout :: "nat \<Rightarrow> (nat \<times> GameState) list \<Rightarrow> (nat \<times> GameState) list" where
  "clearTimeout timer ts = filter (\<lambda>(h, g). h \<noteq> timer) ts"

text \<open>
  After mounting: the state is \<^verbatim>\<open>initialGameState\<close>, the effect has run once with its
  condition false, so nothing is scheduled and there is no cleanup.
\<close>

definition initialApp :: App where
  "initialApp = \<lparr>gameState = initialGameState, timeouts = [], cleanup = None, nextTimer = 0\<rparr>"

text \<open>
  One render with the new state \<open>s\<close>, followed by the effect. React re-runs an effect
  only when one of its dependencies changed; \<^verbatim>\<open>handleComputerVsComputer\<close> is a
  \<^verbatim>\<open>useCallback\<close> on \<^verbatim>\<open>[gameState.isPlaying]\<close>, so the three dependencies change exactly
  when \<open>isPlaying\<close> or \<open>mode\<close> does. When they do, the previous cleanup runs first,
  then the effect body: in computer-vs-computer mode while playing it schedules a new
  timeout and returns its cleanup. The render and its effect are taken to finish before
  the next event is handled, as React does for updates made in a click handler.
\<close>

definition render :: "GameState \<Rightarrow> App \<Rightarrow> App" where
  "render s a =
     (if isPlaying s = isPlaying (gameState a) \<and> mode s = mode (gameState a)
      then a\<lparr>gameState := s\<rparr>
      else
        let cleared = (case cleanup a of None \<Rightarrow> timeouts a
                       | Some timer \<Rightarrow> clearTimeout timer (timeouts a))
        in if mode s = ComputerVsComputer \<and> isPlaying s
           then \<lparr>gameState = s, timeouts = cleared @ [(nextTimer a, s)],
                 cleanup = Some (nextTimer a), nextTimer = nextTimer a + 1\<rparr>
           else \<lparr>gameState = s, timeouts = cleared, cleanup = None, nextTimer = nextTimer a\<rparr>)"

text \<open>
  The events the component reacts to: a click on a mode button, on a move button (with
  the move the computer then samples), on the start button, on the new-game button, and
  the browser firing the timeout with a given handle (with the two sampled moves). Clicks
  are accepted in every state, also where the button is not on screen.
\<close>

datatype Event =
  ClickMode GameMode
| ClickMove Move Move
| ClickStart
| ClickReset
| TimerFires nat Move Move

text \<open>
  A click runs the handler of the current render on the current state. A timeout that
  is no longer scheduled never fires; one that is scheduled leaves the table and runs
  its callback, whose guard reads the state it closed over.
\<close>

fun dispatch :: "Event \<Rightarrow> App \<Rightarrow> App" where
  "dispatch (ClickMode m) a = render (handleModeChange m (gameState a)) a"
| "dispatch (ClickMove move computerMove) a =
     render (handleHumanMove (gameState a) move computerMove (gameState a)) a"
| "dispatch ClickStart a = render (startNewRound (gameState a)) a"
| "dispatch ClickReset a = render (resetGame (gameState a)) a"
| "dispatch (TimerFires timer p1Move p2Move) a =
     (case map_of (timeouts a) timer of
        None \<Rightarrow> a
      | Some g \<Rightarrow>
          render (handleComputerVsComputer g p1Move p2Move (gameState a))
            (a\<lparr>timeouts := clearTimeout timer (timeouts a)\<rparr>))"

fun run :: "Event list \<Rightarrow> App \<Rightarrow> App" where
  "run [] a = a"
| "run (e # es) a = run es (dispatch e a)"

text \<open>A timeout is pending while its handle is in the table.\<close>

definition pending :: "nat \<Rightarrow> App \<Rightarrow> bool" where
  "pending timer a \<longleftrightarrow> timer \<in> fst ` set (timeouts a)"

text \<open>
  The invariant of the effect: every scheduled timeout is the one the current cleanup
  would clear, its handle has been issued, and a timeout is scheduled only while playing
  in computer-vs-computer mode.
\<close>

definition effectInv :: "App \<Rightarrow> bool" where
  "effectInv a \<longleftrightarrow>
     (\<forall>p \<in> set (timeouts a). cleanup a = Some (fst p) \<and> fst p < nextTimer a)
     \<and> (timeouts a \<noteq> [] \<longrightarrow>
          isPlaying (gameState a) \<and> mode (gameState a) = ComputerVsComputer)"

text \<open>A handle that has been issued and is no longer scheduled.\<close>

definition spent :: "nat \<Rightarrow> App \<Rightarrow> bool" where
  "spent timer a \<longleftrightarrow> timer < nextTimer a \<and> \<not> pending timer a"

section \<open>The move resolver\<close>

lemma determineWinner_same: "determineWinner x x = Tie"
  by (simp add: determineWinner_def)

lemma determineWinner_table:
  "determineWinner Rock Scissors = Player1"
  "determineWinner Scissors Paper = Player1"
  "determineWinner Paper Rock = Player1"
  "determineWinner Scissors Rock = Player2"
  "determineWinner Paper Scissors = Player2"
  "determineWinner Rock Paper = Player2"
  by (simp_all add: determineWinner_def)

lemma determineWinner_spec: "determineWinner a b = spec_resolve a b"
  by (cases a; cases b) (simp_all add: determineWinner_def spec_resolve_def)

text \<open>
  Claim C1. \<^verbatim>\<open>determineWinner\<close> is the reference win table: on every pair of moves it
  returns what the specification's resolver returns (tie on identical moves, otherwise
  first-wins exactly when the first move beats the second under rock beats scissors,
  scissors beats paper, paper beats rock). In particular a move against itself ties,
  rock against scissors is won by player1 and scissors against rock by player2.
\<close>

theorem resolver_matches_win_table:
  "determineWinner a b = spec_resolve a b
   \<and> determineWinner x x = Tie
   \<and> determineWinner Rock Scissors = Player1
   \<and> determineWinner Scissors Rock = Player2
   \<and> determineWinner Paper Paper = Tie"
  using determineWinner_spec [of a b] determineWinner_same determineWinner_table(1,4)
  by simp

lemma determineWinner_flip:
  "determineWinner b a =
     (case determineWinner a b of Player1 \<Rightarrow> Player2 | Player2 \<Rightarrow> Player1 | Tie \<Rightarrow> Tie)"
  by (cases a; cases b) (simp_all add: determineWinner_def)

text \<open>
  Claim C3. Swapping the two moves flips the outcome: if \<^verbatim>\<open>determineWinner(a,b)\<close> is
  player1 then \<^verbatim>\<open>determineWinner(b,a)\<close> is player2, if it is player2 then the swap gives
  player1, and a tie stays a tie; the two calls are never both player1 and never both
  player2.
\<close>

theorem resolver_swap_antisymmetry:
  "(determineWinner a b = Player1 \<longrightarrow> determineWinner b a = Player2)
   \<and> (determineWinner a b = Player2 \<longrightarrow> determineWinner b a = Player1)
   \<and> (determineWinner a b = Tie \<longrightarrow> determineWinner b a = Tie)
   \<and> \<not> (determineWinner a b = Player1 \<and> determineWinner b a = Player1)
   \<and> \<not> (determineWinner a b = Player2 \<and> determineWinner b a = Player2)"
  by (simp add: determineWinner_flip [of a b] split: Winner.split)

theorem resolver_swap_antisymmetry_witness:
  "determineWinner Rock Scissors = Player1 \<and> determineWinner Scissors Rock = Player2
   \<and> determineWinner Paper Scissors = Player2 \<and> determineWinner Scissors Paper = Player1
   \<and> determineWinner Paper Paper = Tie"
  using resolver_swap_antisymmetry [of Rock Scissors]
    resolver_swap_antisymmetry [of Paper Scissors]
    resolver_swap_antisymmetry [of Paper Paper]
  by (simp add: determineWinner_def)

lemma ex1_Move:
  "(\<exists>!x. P x) \<longleftrightarrow>
     (P Rock \<and> \<not> P Paper \<and> \<not> P Scissors)
   \<or> (\<not> P Rock \<and> P Paper \<and> \<not> P Scissors)
   \<or> (\<not> P Rock \<and> \<not> P Paper \<and> P Scissors)"
  (is "?lhs \<longleftrightarrow> ?rhs")
proof
  assume ?lhs
  then obtain x where x: "P x" "\<And>y. P y \<Longrightarrow> y = x" by blast
  then show ?rhs by (cases x) auto
next
  assume h: ?rhs
  then obtain x where x: "P x" by blast
  have "y = x" if "P y" for y
    using h x that by (cases x; cases y) auto
  with x show ?lhs by blast
qed

lemma one_rule_applies:
  "a \<noteq> b \<Longrightarrow> \<exists>!x. {a, b} = insert x (set (winConditions x))"
  by (cases a; cases b) (auto simp: ex1_Move)

text \<open>
  Claim C4. For two different moves \<^verbatim>\<open>determineWinner\<close> never returns tie: exactly one of
  the two players wins, because exactly one of the two moves is in the other's
  \<^verbatim>\<open>winConditions\<close> entry, and exactly one of the three rules of the table (a move
  together with the move it beats) is the pair at hand.
\<close>

theorem distinct_moves_never_tie:
  "a \<noteq> b \<Longrightarrow>
     determineWinner a b \<noteq> Tie
     \<and> (determineWinner a b = Player1) \<noteq> (determineWinner a b = Player2)
     \<and> (b \<in> set (winConditions a)) \<noteq> (a \<in> set (winConditions b))
     \<and> (\<exists>!x. {a, b} = insert x (set (winConditions x)))"
  using one_rule_applies [of a b]
  by (cases a; cases b) (simp_all add: determineWinner_def)

theorem distinct_moves_never_tie_witness:
  "Paper \<noteq> Scissors
   \<and> determineWinner Paper Scissors \<noteq> Tie
   \<and> determineWinner Paper Scissors = Player2
   \<and> Paper \<in> set (winConditions Scissors)
   \<and> Scissors \<notin> set (winConditions Paper)"
  using distinct_moves_never_tie [of Paper Scissors]
  by (simp add: determineWinner_def)

section \<open>The session state\<close>

text \<open>
  Claim C5. From every session state, new-game (\<^verbatim>\<open>resetGame\<close>) and change-mode
  (\<^verbatim>\<open>handleModeChange\<close>) both set the round counter and the three score counters to 0
  and end not playing; new-game keeps the mode, change-mode records the selected mode.
\<close>

theorem reset_operations_zero_counters:
  "currentRound (resetGame s) = 0
   \<and> scores (resetGame s) = \<lparr>player1 = 0, player2 = 0, ties = 0\<rparr>
   \<and> \<not> isPlaying (resetGame s)
   \<and> mode (resetGame s) = mode s
   \<and> currentRound (handleModeChange m s) = 0
   \<and> scores (handleModeChange m s) = \<lparr>player1 = 0, player2 = 0, ties = 0\<rparr>
   \<and> \<not> isPlaying (handleModeChange m s)
   \<and> mode (handleModeChange m s) = m"
  by (simp add: resetGame_def handleModeChange_def initialGameState_def)

text \<open>
  Claim C8. From every state, start-round (\<^verbatim>\<open>startNewRound\<close>) sets playing to true and
  clears the stored last result; the mode, the round counter and the three score
  counters stay as they were.
\<close>

theorem startNewRound_frame:
  "isPlaying (startNewRound s)
   \<and> lastResult (startNewRound s) = None
   \<and> mode (startNewRound s) = mode s
   \<and> currentRound (startNewRound s) = currentRound s
   \<and> scores (startNewRound s) = scores s"
  by (simp add: startNewRound_def)

text \<open>
  Claim C10. In a session state that is not playing, \<^verbatim>\<open>handleHumanMove\<close> (with any move)
  and \<^verbatim>\<open>handleComputerVsComputer\<close> return at their guard: the session state is left
  exactly as it was. Since no update is issued at all, this holds for whatever state
  \<open>prev\<close> the component is in, and in particular for the state \<open>s\<close> itself.
\<close>

theorem idle_guard_no_change:
  "\<not> isPlaying s \<Longrightarrow>
     handleHumanMove s move computerMove s = s
     \<and> handleComputerVsComputer s p1Move p2Move s = s
     \<and> handleHumanMove s move computerMove prev = prev
     \<and> handleComputerVsComputer s p1Move p2Move prev = prev"
  by (simp add: handleHumanMove_def handleComputerVsComputer_def)

theorem idle_guard_no_change_witness:
  "\<not> isPlaying initialGameState
   \<and> handleHumanMove initialGameState Rock Scissors initialGameState = initialGameState
   \<and> handleComputerVsComputer initialGameState Paper Rock initialGameState = initialGameState
   \<and> handleHumanMove initialGameState Rock Scissors (startNewRound initialGameState)
       = startNewRound initialGameState
   \<and> handleComputerVsComputer initialGameState Paper Rock (startNewRound initialGameState)
       = startNewRound initialGameState"
  using idle_guard_no_change [of initialGameState Rock Scissors Paper Rock
      "startNewRound initialGameState"]
  by (simp add: initialGameState_def)

text \<open>
  Claim C6. A human-vs-computer session is started from the initial state; the human
  plays rock and the computer's sampled move is scissors. Afterwards the round counter
  is 1, the player1 score is 1, the other two counters are 0, playing is false, and the
  stored last result is player1 winning with rock against scissors.
\<close>

theorem human_round_scenario:
  "handleHumanMove (startNewRound initialGameState) Rock Scissors
     (startNewRound initialGameState)
   = \<lparr>mode = HumanVsComputer, currentRound = 1,
      scores = \<lparr>player1 = 1, player2 = 0, ties = 0\<rparr>,
      lastResult = Some \<lparr>winner = Player1, player1Move = Rock, player2Move = Scissors\<rparr>,
      isPlaying = False\<rparr>"
  by (simp add: handleHumanMove_def startNewRound_def initialGameState_def playRound_def
      determineWinner_def)

section \<open>Round accounting\<close>

lemma winner_playRound: "winner (playRound a b) = determineWinner a b"
  by (simp add: playRound_def)

lemma handleHumanMove_round:
  "isPlaying g \<Longrightarrow>
     currentRound (handleHumanMove g move computerMove prev) = currentRound prev + 1
     \<and> exactlyOneScored (scores prev) (scores (handleHumanMove g move computerMove prev))"
  by (cases "determineWinner move computerMove")
    (simp_all add: handleHumanMove_def exactlyOneScored_def winner_playRound Let_def)

lemma handleComputerVsComputer_round:
  "isPlaying g \<Longrightarrow>
     currentRound (handleComputerVsComputer g p1Move p2Move prev) = currentRound prev + 1
     \<and> exactlyOneScored (scores prev)
          (scores (handleComputerVsComputer g p1Move p2Move prev))"
  by (cases "determineWinner p1Move p2Move")
    (simp_all add: handleComputerVsComputer_def exactlyOneScored_def winner_playRound Let_def)

lemma exactlyOneScored_total:
  "exactlyOneScored old new \<Longrightarrow>
     player1 new + player2 new + ties new = player1 old + player2 old + ties old + 1"
  by (auto simp: exactlyOneScored_def)

lemma handleHumanMove_total:
  assumes "scoreTotal s = currentRound s"
  shows "scoreTotal (handleHumanMove g move computerMove s)
         = currentRound (handleHumanMove g move computerMove s)"
proof (cases "isPlaying g")
  case True
  from handleHumanMove_round [OF True, of move computerMove s] assms show ?thesis
    by (auto simp: scoreTotal_def dest: exactlyOneScored_total)
next
  case False
  with assms show ?thesis by (simp add: handleHumanMove_def)
qed

lemma handleComputerVsComputer_total:
  assumes "scoreTotal s = currentRound s"
  shows "scoreTotal (handleComputerVsComputer g p1Move p2Move s)
         = currentRound (handleComputerVsComputer g p1Move p2Move s)"
proof (cases "isPlaying g")
  case True
  from handleComputerVsComputer_round [OF True, of p1Move p2Move s] assms show ?thesis
    by (auto simp: scoreTotal_def dest: exactlyOneScored_total)
next
  case False
  with assms show ?thesis by (simp add: handleComputerVsComputer_def)
qed

lemma reachable_total: "reachable s \<Longrightarrow> scoreTotal s = currentRound s"
proof (induction rule: reachable.induct)
  case initial
  show ?case by (simp add: scoreTotal_def initialGameState_def)
next
  case (modeChange s m)
  show ?case by (simp add: scoreTotal_def handleModeChange_def initialGameState_def)
next
  case (humanMove s g move computerMove)
  then show ?case by (simp add: handleHumanMove_total)
next
  case (computerVsComputer s g p1Move p2Move)
  then show ?case by (simp add: handleComputerVsComputer_total)
next
  case (newRound s)
  then show ?case by (simp add: scoreTotal_def startNewRound_def)
next
  case (reset s)
  show ?case by (simp add: scoreTotal_def resetGame_def initialGameState_def)
qed

text \<open>
  Claim C2. Every completed round (a call of \<^verbatim>\<open>handleHumanMove\<close> or
  \<^verbatim>\<open>handleComputerVsComputer\<close> that passes its guard) raises the round counter by exactly
  1 and raises exactly one of the player1 score, the player2 score and the tie count
  by 1; hence in every reachable session state player1 + player2 + ties equals
  \<^verbatim>\<open>currentRound\<close>.
\<close>

theorem round_accounting:
  "(isPlaying g \<longrightarrow>
      currentRound (handleHumanMove g move computerMove prev) = currentRound prev + 1
      \<and> exactlyOneScored (scores prev) (scores (handleHumanMove g move computerMove prev)))
   \<and> (isPlaying g \<longrightarrow>
      currentRound (handleComputerVsComputer g p1Move p2Move prev) = currentRound prev + 1
      \<and> exactlyOneScored (scores prev)
           (scores (handleComputerVsComputer g p1Move p2Move prev)))
   \<and> (reachable s \<longrightarrow>
      player1 (scores s) + player2 (scores s) + ties (scores s) = currentRound s)"
  using handleHumanMove_round [of g move computerMove prev]
    handleComputerVsComputer_round [of g p1Move p2Move prev]
    reachable_total [of s]
  by (simp add: scoreTotal_def)

theorem round_accounting_witness:
  "isPlaying (startNewRound initialGameState)
   \<and> currentRound (handleHumanMove (startNewRound initialGameState) Rock Scissors
        (startNewRound initialGameState)) = 1
   \<and> scores (handleComputerVsComputer (startNewRound initialGameState) Paper Paper
        (startNewRound initialGameState)) = \<lparr>player1 = 0, player2 = 0, ties = 1\<rparr>
   \<and> reachable (handleHumanMove (startNewRound initialGameState) Rock Scissors
        (startNewRound initialGameState))
   \<and> player1 (scores (handleHumanMove (startNewRound initialGameState) Rock Scissors
        (startNewRound initialGameState))) = 1"
proof -
  let ?s1 = "startNewRound initialGameState"
  let ?s2 = "handleHumanMove ?s1 Rock Scissors ?s1"
  have p: "isPlaying ?s1" by (simp add: startNewRound_def)
  have r: "reachable ?s2"
    by (intro reachable.humanMove reachable.newRound reachable.initial)
  from p r round_accounting [of ?s1 Rock Scissors ?s1 Paper Paper ?s2]
  show ?thesis
    by (simp add: handleHumanMove_def handleComputerVsComputer_def startNewRound_def
        initialGameState_def playRound_def determineWinner_def)
qed

text \<open>
  Claim C9, as the code has it. The round counter and each of the three score counters
  never decrease under start-round, a human move or an automatic resolution; new-game
  (\<^verbatim>\<open>resetGame\<close>) and change-mode (\<^verbatim>\<open>handleModeChange\<close>) each set all four back to zero,
  so these two are the operations that reset them together.
\<close>

theorem counters_monotone_until_reset:
  "currentRound prev \<le> currentRound (startNewRound prev)
   \<and> player1 (scores prev) \<le> player1 (scores (startNewRound prev))
   \<and> player2 (scores prev) \<le> player2 (scores (startNewRound prev))
   \<and> ties (scores prev) \<le> ties (scores (startNewRound prev))
   \<and> currentRound prev \<le> currentRound (handleHumanMove g move computerMove prev)
   \<and> player1 (scores prev) \<le> player1 (scores (handleHumanMove g move computerMove prev))
   \<and> player2 (scores prev) \<le> player2 (scores (handleHumanMove g move computerMove prev))
   \<and> ties (scores prev) \<le> ties (scores (handleHumanMove g move computerMove prev))
   \<and> currentRound prev \<le> currentRound (handleComputerVsComputer g p1Move p2Move prev)
   \<and> player1 (scores prev)
        \<le> player1 (scores (handleComputerVsComputer g p1Move p2Move prev))
   \<and> player2 (scores prev)
        \<le> player2 (scores (handleComputerVsComputer g p1Move p2Move prev))
   \<and> ties (scores prev) \<le> ties (scores (handleComputerVsComputer g p1Move p2Move prev))
   \<and> currentRound (resetGame prev) = 0
   \<and> scores (resetGame prev) = \<lparr>player1 = 0, player2 = 0, ties = 0\<rparr>
   \<and> currentRound (handleModeChange m prev) = 0
   \<and> scores (handleModeChange m prev) = \<lparr>player1 = 0, player2 = 0, ties = 0\<rparr>"
  by (simp add: startNewRound_def handleHumanMove_def handleComputerVsComputer_def
      resetGame_def handleModeChange_def initialGameState_def Let_def)

text \<open>
  Claim C9 as stated fails: change-mode is not the new-game action, yet on the state
  reached after one round won by player1 it lowers the round counter and the player1
  score and leaves all four counters at zero.
\<close>

theorem change_mode_resets_counterexample:
  "currentRound (handleModeChange ComputerVsComputer
      \<lparr>mode = HumanVsComputer, currentRound = 1,
       scores = \<lparr>player1 = 1, player2 = 0, ties = 0\<rparr>,
       lastResult = Some \<lparr>winner = Player1, player1Move = Rock, player2Move = Scissors\<rparr>,
       isPlaying = False\<rparr>)
     < currentRound
      \<lparr>mode = HumanVsComputer, currentRound = 1,
       scores = \<lparr>player1 = 1, player2 = 0, ties = 0\<rparr>,
       lastResult = Some \<lparr>winner = Player1, player1Move = Rock, player2Move = Scissors\<rparr>,
       isPlaying = False\<rparr>
   \<and> currentRound (handleModeChange ComputerVsComputer
      \<lparr>mode = HumanVsComputer, currentRound = 1,
       scores = \<lparr>player1 = 1, player2 = 0, ties = 0\<rparr>,
       lastResult = Some \<lparr>winner = Player1, player1Move = Rock, player2Move = Scissors\<rparr>,
       isPlaying = False\<rparr>) = 0
   \<and> scores (handleModeChange ComputerVsComputer
      \<lparr>mode = HumanVsComputer, currentRound = 1,
       scores = \<lparr>player1 = 1, player2 = 0, ties = 0\<rparr>,
       lastResult = Some \<lparr>winner = Player1, player1Move = Rock, player2Move = Scissors\<rparr>,
       isPlaying = False\<rparr>) = \<lparr>player1 = 0, player2 = 0, ties = 0\<rparr>"
  by (simp add: handleModeChange_def initialGameState_def)

section \<open>Cancellation of the pending automatic resolution\<close>

lemma run_append: "run (xs @ ys) a = run ys (run xs a)"
  by (induction xs arbitrary: a) simp_all

lemma render_same:
  "isPlaying s = isPlaying (gameState a) \<Longrightarrow> mode s = mode (gameState a) \<Longrightarrow>
     render s a = a\<lparr>gameState := s\<rparr>"
  by (simp add: render_def)

lemma render_changed:
  "\<not> (isPlaying s = isPlaying (gameState a) \<and> mode s = mode (gameState a)) \<Longrightarrow>
     render s a =
       (let cleared = (case cleanup a of None \<Rightarrow> timeouts a
                       | Some timer \<Rightarrow> clearTimeout timer (timeouts a))
        in if mode s = ComputerVsComputer \<and> isPlaying s
           then \<lparr>gameState = s, timeouts = cleared @ [(nextTimer a, s)],
                 cleanup = Some (nextTimer a), nextTimer = nextTimer a + 1\<rparr>
           else \<lparr>gameState = s, timeouts = cleared, cleanup = None, nextTimer = nextTimer a\<rparr>)"
  by (simp only: render_def if_not_P if_False)

lemma clearTimeout_owned:
  assumes "\<forall>p \<in> set ts. c = Some (fst p)"
  shows "(case c of None \<Rightarrow> ts | Some timer \<Rightarrow> clearTimeout timer ts) = []"
proof (cases c)
  case None
  have "ts = []"
  proof (cases ts)
    case (Cons p ps)
    with assms have "c = Some (fst p)" by simp
    with None show ?thesis by simp
  qed simp
  with None show ?thesis by simp
next
  case (Some t)
  with assms have "\<forall>p \<in> set ts. fst p = t" by auto
  then have "clearTimeout t ts = []"
    by (auto simp: clearTimeout_def filter_empty_conv)
  with Some show ?thesis by simp
qed

lemma clearTimeout_subset: "set (clearTimeout t ts) \<subseteq> set ts"
  by (auto simp: clearTimeout_def)

lemma not_in_clearTimeout: "t \<notin> fst ` set (clearTimeout t ts)"
  by (auto simp: clearTimeout_def)

text \<open>Every render keeps the invariant of the effect, and so does every event.\<close>

lemma render_inv:
  assumes "effectInv a"
  shows "effectInv (render s a)"
proof (cases "isPlaying s = isPlaying (gameState a) \<and> mode s = mode (gameState a)")
  case True
  then have "render s a = a\<lparr>gameState := s\<rparr>" by (simp add: render_same)
  with assms True show ?thesis by (auto simp: effectInv_def)
next
  case False
  from assms have "\<forall>p \<in> set (timeouts a). cleanup a = Some (fst p)"
    by (simp add: effectInv_def)
  then have "(case cleanup a of None \<Rightarrow> timeouts a
              | Some timer \<Rightarrow> clearTimeout timer (timeouts a)) = []"
    by (rule clearTimeout_owned)
  then show ?thesis by (simp add: render_changed [OF False] effectInv_def)
qed

lemma dispatch_inv: "effectInv a \<Longrightarrow> effectInv (dispatch e a)"
proof (cases e)
  case (TimerFires t p1 p2)
  assume inv: "effectInv a"
  show ?thesis
  proof (cases "map_of (timeouts a) t")
    case None
    with inv TimerFires show ?thesis by simp
  next
    case (Some g)
    then have "(t, g) \<in> set (timeouts a)" by (rule map_of_SomeD)
    with inv have c: "cleanup a = Some t" by (auto simp: effectInv_def)
    with inv have "\<forall>p \<in> set (timeouts a). fst p = t" by (auto simp: effectInv_def)
    then have "clearTimeout t (timeouts a) = []"
      by (auto simp: clearTimeout_def filter_empty_conv)
    then have "effectInv (a\<lparr>timeouts := clearTimeout t (timeouts a)\<rparr>)"
      by (simp add: effectInv_def)
    then have "effectInv (render (handleComputerVsComputer g p1 p2 (gameState a))
        (a\<lparr>timeouts := clearTimeout t (timeouts a)\<rparr>))"
      by (rule render_inv)
    with Some TimerFires show ?thesis by simp
  qed
qed (simp_all add: render_inv)

lemma run_inv: "effectInv a \<Longrightarrow> effectInv (run es a)"
  by (induction es arbitrary: a) (simp_all add: dispatch_inv)

lemma initialApp_inv: "effectInv initialApp"
  by (simp add: effectInv_def initialApp_def)

lemma pending_only_while_playing:
  assumes "pending t (run es initialApp)"
  shows "mode (gameState (run es initialApp)) = ComputerVsComputer
         \<and> isPlaying (gameState (run es initialApp))"
proof -
  have "effectInv (run es initialApp)" by (rule run_inv [OF initialApp_inv])
  moreover from assms have "timeouts (run es initialApp) \<noteq> []"
    by (auto simp: pending_def)
  ultimately show ?thesis by (simp add: effectInv_def)
qed

text \<open>A spent handle stays spent: new timeouts get handles that were never issued.\<close>

lemma render_spent: "spent t a \<Longrightarrow> spent t (render s a)"
  using clearTimeout_subset [of _ "timeouts a"]
  by (auto simp: spent_def pending_def render_def Let_def split: option.splits)

lemma dispatch_spent: "spent t a \<Longrightarrow> spent t (dispatch e a)"
proof (cases e)
  case (TimerFires t' p1 p2)
  assume sp: "spent t a"
  then have "spent t (a\<lparr>timeouts := clearTimeout t' (timeouts a)\<rparr>)"
    using clearTimeout_subset [of t' "timeouts a"] by (auto simp: spent_def pending_def)
  with sp TimerFires show ?thesis
    by (auto split: option.splits intro: render_spent)
qed (simp_all add: render_spent)

lemma run_spent: "spent t a \<Longrightarrow> spent t (run es a)"
  by (induction es arbitrary: a) (simp_all add: dispatch_spent)

lemma spent_fire: "spent t a \<Longrightarrow> dispatch (TimerFires t p1 p2) a = a"
proof -
  assume "spent t a"
  then have "t \<notin> fst ` set (timeouts a)" by (simp add: spent_def pending_def)
  then have "map_of (timeouts a) t = None" by (simp add: map_of_eq_None_iff)
  then show ?thesis by simp
qed

text \<open>A render that ends the playing state runs the cleanup of the pending timeout.\<close>

lemma cancel_on_idle:
  assumes inv: "effectInv a" and p: "pending t a" and s: "\<not> isPlaying s"
  shows "spent t (render s a)"
proof -
  from p obtain g where tg: "(t, g) \<in> set (timeouts a)" by (auto simp: pending_def)
  with inv have c: "cleanup a = Some t" and lt: "t < nextTimer a"
    and pl: "isPlaying (gameState a)"
    by (auto simp: effectInv_def)
  from pl s have ch: "\<not> (isPlaying s = isPlaying (gameState a) \<and> mode s = mode (gameState a))"
    by simp
  from c lt s show ?thesis
    using not_in_clearTimeout [of t "timeouts a"]
    by (simp add: render_changed [OF ch] spent_def pending_def)
qed

lemma cancelled_forever:
  assumes "pending timer (run before initialApp)"
    and "\<not> isPlaying s"
    and "dispatch e (run before initialApp) = render s (run before initialApp)"
  shows "dispatch (TimerFires timer p1 p2) (run (before @ e # after) initialApp)
         = run (before @ e # after) initialApp"
proof -
  let ?a = "run before initialApp"
  have "effectInv ?a" by (rule run_inv [OF initialApp_inv])
  then have "spent timer (render s ?a)" using assms(1,2) by (rule cancel_on_idle)
  with assms(3) have "spent timer (run after (dispatch e ?a))" by (simp add: run_spent)
  then have "dispatch (TimerFires timer p1 p2) (run after (dispatch e ?a))
             = run after (dispatch e ?a)"
    by (rule spent_fire)
  then show ?thesis by (simp only: run_append run.simps)
qed

text \<open>
  Claim C7. An automatic resolution is pending: after some events \<open>before\<close> the
  timeout \<open>timer\<close> is scheduled (which happens only in computer-vs-computer mode while
  playing). If the mode is then switched or the session is reset, that timeout is
  cleared, and whatever events \<open>after\<close> follow, its firing changes nothing: not the
  scores, the round counter or the last result of the new session, nor anything else.
\<close>

theorem stale_resolution_cancelled:
  assumes "pending timer (run before initialApp)"
  shows "dispatch (TimerFires timer p1Move p2Move)
           (run (before @ ClickMode newMode # after) initialApp)
         = run (before @ ClickMode newMode # after) initialApp
       \<and> dispatch (TimerFires timer p1Move p2Move)
           (run (before @ ClickReset # after) initialApp)
         = run (before @ ClickReset # after) initialApp"
proof
  show "dispatch (TimerFires timer p1Move p2Move)
           (run (before @ ClickMode newMode # after) initialApp)
         = run (before @ ClickMode newMode # after) initialApp"
    using assms
    by (rule cancelled_forever [where s = "handleModeChange newMode
          (gameState (run before initialApp))"])
      (simp_all add: handleModeChange_def initialGameState_def)
  show "dispatch (TimerFires timer p1Move p2Move)
           (run (before @ ClickReset # after) initialApp)
         = run (before @ ClickReset # after) initialApp"
    using assms
    by (rule cancelled_forever [where s = "resetGame (gameState (run before initialApp))"])
      (simp_all add: resetGame_def initialGameState_def)
qed

theorem stale_resolution_cancelled_witness:
  "pending 0 (run [ClickMode ComputerVsComputer, ClickStart] initialApp)
   \<and> currentRound (gameState (dispatch (TimerFires 0 Rock Scissors)
        (run [ClickMode ComputerVsComputer, ClickStart] initialApp))) = 1
   \<and> dispatch (TimerFires 0 Rock Scissors)
        (run [ClickMode ComputerVsComputer, ClickStart, ClickMode HumanVsComputer, ClickStart]
           initialApp)
       = run [ClickMode ComputerVsComputer, ClickStart, ClickMode HumanVsComputer, ClickStart]
           initialApp
   \<and> dispatch (TimerFires 0 Rock Scissors)
        (run [ClickMode ComputerVsComputer, ClickStart, ClickReset, ClickStart] initialApp)
       = run [ClickMode ComputerVsComputer, ClickStart, ClickReset, ClickStart] initialApp
   \<and> pending 1 (run [ClickMode ComputerVsComputer, ClickStart, ClickReset, ClickStart]
        initialApp)"
proof -
  have p: "pending 0 (run [ClickMode ComputerVsComputer, ClickStart] initialApp)"
    by code_simp
  have f: "currentRound (gameState (dispatch (TimerFires 0 Rock Scissors)
        (run [ClickMode ComputerVsComputer, ClickStart] initialApp))) = 1"
    by code_simp
  have q: "pending 1 (run [ClickMode ComputerVsComputer, ClickStart, ClickReset, ClickStart]
        initialApp)"
    by code_simp
  from p f q
    stale_resolution_cancelled [OF p, of Rock Scissors HumanVsComputer "[ClickStart]"]
  show ?thesis by simp
qed

end
